theory Spec2Isabelle
  imports Main
begin

section \<open>Strings and the path library\<close>

text \<open>
  The relay is one TypeScript module, \<^verbatim>\<open>src/index.ts\<close>. It reads three environment
  variables, creates a Discord client and a chokidar watcher, and uploads every PNG file the
  watcher reports. Everything the module does beyond computing strings is an effect on the
  outside world; the embedding records these effects, in program order, as a trace.

  Strings are byte strings (UTF-8). The module inspects only ASCII characters of a path
  (\<^verbatim>\<open>/\<close>, \<^verbatim>\<open>.\<close> and the letters of \<^verbatim>\<open>.png\<close>).
\<close>

definition lower_char :: "char \<Rightarrow> char" where
  "lower_char c =
     (let n = (of_char c :: nat) in if 65 \<le> n \<and> n \<le> 90 then char_of (n + 32) else c)"

definition toLowerCase :: "string \<Rightarrow> string" where
  \<comment> \<open>\<^verbatim>\<open>String.prototype.toLowerCase\<close> on the ASCII letters. No character outside ASCII
      lower-cases to one of the characters of \<^verbatim>\<open>.png\<close>, so the comparison of line 108
      is decided by the ASCII letters alone.\<close>
  "toLowerCase s = map lower_char s"

definition slice :: "string \<Rightarrow> int \<Rightarrow> int \<Rightarrow> string" where
  \<comment> \<open>\<^verbatim>\<open>String.prototype.slice(start, end)\<close> for \<open>0 \<le> start\<close> and \<open>0 \<le> end\<close>.\<close>
  "slice s a b = take (nat b - nat a) (drop (nat a) s)"

record ext_scan =
  startDot :: int
  startPart :: int
  endPos :: int
  matchedSlash :: bool
  preDotState :: int

definition ext_init :: ext_scan where
  "ext_init = \<lparr>startDot = -1, startPart = 0, endPos = -1, matchedSlash = True, preDotState = 0\<rparr>"

fun extname_loop :: "string \<Rightarrow> nat \<Rightarrow> ext_scan \<Rightarrow> ext_scan" where
  "extname_loop path 0 s = s"
| "extname_loop path (Suc i) s =
     (if path ! i = CHR ''/'' then
        (if \<not> matchedSlash s then s\<lparr>startPart := int i + 1\<rparr>
         else extname_loop path i s)
      else
        (let s1 = (if endPos s = -1 then s\<lparr>matchedSlash := False, endPos := int i + 1\<rparr> else s);
             s2 = (if path ! i = CHR ''.'' then
                     (if startDot s1 = -1 then s1\<lparr>startDot := int i\<rparr>
                      else if preDotState s1 \<noteq> 1 then s1\<lparr>preDotState := 1\<rparr>
                      else s1)
                   else if startDot s1 \<noteq> -1 then s1\<lparr>preDotState := -1\<rparr>
                   else s1)
         in extname_loop path i s2))"

definition extname :: "string \<Rightarrow> string" where
  \<comment> \<open>Modelled from the spec: \<^verbatim>\<open>path.extname\<close>, the spec's "extension" of a path, is a
      function of the Node.js runtime, not of this repository. This is the runtime's POSIX
      algorithm: scan the path from its last character (index \<open>i\<close> runs from
      \<open>length path - 1\<close> down to \<open>0\<close>), skip trailing separators, stop at the separator before
      the last component, and return the text from the last dot of that component to its end;
      a component that starts with its only dot, or is \<^verbatim>\<open>..\<close>, has no extension.\<close>
  "extname path =
     (let s = extname_loop path (length path) ext_init in
      if startDot s = -1 \<or> endPos s = -1 \<or> preDotState s = 0 \<or>
         (preDotState s = 1 \<and> startDot s = endPos s - 1 \<and> startDot s = startPart s + 1)
      then [] else slice path (startDot s) (endPos s))"

record base_scan =
  bstart :: int
  bend :: int
  bmatchedSlash :: bool

fun basename_loop :: "string \<Rightarrow> nat \<Rightarrow> base_scan \<Rightarrow> base_scan" where
  "basename_loop path 0 s = s"
| "basename_loop path (Suc i) s =
     (if path ! i = CHR ''/'' then
        (if \<not> bmatchedSlash s then s\<lparr>bstart := int i + 1\<rparr>
         else basename_loop path i s)
      else if bend s = -1 then basename_loop path i (s\<lparr>bmatchedSlash := False, bend := int i + 1\<rparr>)
      else basename_loop path i s)"

definition basename :: "string \<Rightarrow> string" where
  \<comment> \<open>Modelled from the spec: \<^verbatim>\<open>path.basename\<close> with one argument, the spec's "base name"
      of a file, is a function of the Node.js runtime, not of this repository. This is the
      runtime's POSIX algorithm: the last component of the path, trailing separators dropped.\<close>
  "basename path =
     (let s = basename_loop path (length path) \<lparr>bstart = 0, bend = -1, bmatchedSlash = True\<rparr> in
      if bend s = -1 then [] else slice path (bstart s) (bend s))"

definition is_png :: "string \<Rightarrow> bool" where
  \<comment> \<open>The test of line 108.\<close>
  "is_png filePath \<longleftrightarrow> toLowerCase (extname filePath) = ''.png''"

section \<open>Values, console output and effects\<close>

type_synonym env = "string \<Rightarrow> string option"
  \<comment> \<open>\<^verbatim>\<open>process.env\<close> after \<^verbatim>\<open>dotenv.config()\<close>: \<open>None\<close> is \<^verbatim>\<open>undefined\<close>.\<close>

datatype err = Error string

datatype jsval =
    Str string
  | Undefined
  | Bool bool
  | Num nat
  | Thrown err
  | Obj "(string \<times> jsval) list"

datatype console_method = CLog | CWarn | CError

datatype client_event = EvDebug | EvWarn | EvError | EvClientReady

datatype watcher_event = WReady | WAdd | WError

datatype effect =
    DotenvConfig
  | Console console_method string "jsval list"
  | NewClient
  | ChokidarWatch "string option"
  | ClientOn client_event
  | WatcherOn watcher_event
  | Login "string option"
  | ChannelsFetch "string option"
  | PermissionsFor
  | ExistsSync string
  | ChannelSend string string

text \<open>
  \<open>Console m text args\<close> is one call of \<^verbatim>\<open>console.log\<close>, \<^verbatim>\<open>console.warn\<close> or
  \<^verbatim>\<open>console.error\<close> with first argument \<open>text\<close> and the further arguments \<open>args\<close>.
  \<open>ChannelSend attachment name\<close> is \<^verbatim>\<open>channel.send({files: [{attachment, name}]})\<close>.
  The pictographs that open some messages are written as their UTF-8 bytes.
\<close>

definition check_mark :: string where
  "check_mark = [char_of (0xE2::nat), char_of (0x9C::nat), char_of (0x85::nat)]"

definition cross_mark :: string where
  "cross_mark = [char_of (0xE2::nat), char_of (0x9D::nat), char_of (0x8C::nat)]"

definition file_folder :: string where
  "file_folder = [char_of (0xF0::nat), char_of (0x9F::nat), char_of (0x93::nat), char_of (0x81::nat)]"

definition arrows :: string where
  "arrows = [char_of (0xF0::nat), char_of (0x9F::nat), char_of (0x94::nat), char_of (0x84::nat)]"

definition DEBUG :: bool where
  "DEBUG = True"

definition debugLog :: "string \<Rightarrow> jsval list \<Rightarrow> effect list" where
  "debugLog message args = (if DEBUG then [Console CLog (''[DEBUG] '' @ message) args] else [])"

definition falsy :: "string option \<Rightarrow> bool" where
  \<comment> \<open>\<^verbatim>\<open>!process.env[envVar]\<close>: the variable is unset or the empty string.\<close>
  "falsy v = (case v of None \<Rightarrow> True | Some x \<Rightarrow> x = [])"

definition interp :: "string option \<Rightarrow> string" where
  \<comment> \<open>A value inside a template literal.\<close>
  "interp v = (case v of None \<Rightarrow> ''undefined'' | Some x \<Rightarrow> x)"

definition opt_val :: "string option \<Rightarrow> jsval" where
  "opt_val v = (case v of None \<Rightarrow> Undefined | Some x \<Rightarrow> Str x)"

section \<open>Start-up: validation and the module's top level\<close>

definition requiredEnvVars :: "string list" where
  "requiredEnvVars = [''DISCORD_TOKEN'', ''CHANNEL_ID'', ''WATCH_PATH'']"

fun validate :: "env \<Rightarrow> string list \<Rightarrow> effect list \<times> (err + unit)" where
  "validate env [] = ([], Inr ())"
| "validate env (envVar # rest) =
     (if falsy (env envVar)
      then ([], Inl (Error (''Missing required environment variable: '' @ envVar)))
      else (case validate env rest of (t, r) \<Rightarrow>
              (debugLog (envVar @ '' is set to: '' @
                         (if envVar = ''DISCORD_TOKEN'' then ''[HIDDEN]'' else interp (env envVar))) []
               @ t, r)))"

definition main :: "env \<Rightarrow> effect list \<times> (err + unit)" where
  \<comment> \<open>The synchronous top level of the module, lines 8 to 149, in program order. An
      \<open>Inl\<close> result is the uncaught exception that ends the process.\<close>
  "main env =
     (case validate env requiredEnvVars of
        (t, Inl e) \<Rightarrow> (DotenvConfig # t, Inl e)
      | (t, Inr _) \<Rightarrow>
          (DotenvConfig # t @
           [NewClient,
            ChokidarWatch (env ''WATCH_PATH''),
            ClientOn EvDebug, ClientOn EvWarn, ClientOn EvError, ClientOn EvClientReady,
            WatcherOn WError,
            Console CLog (arrows @ '' Attempting to connect to Discord...'') [],
            Login (env ''DISCORD_TOKEN'')],
           Inr ()))"

section \<open>The readiness handler\<close>

datatype permissions = Permissions (sendMessages: bool) (attachFiles: bool) (viewChannel: bool)

datatype channel =
    TextChannel (name: string) (permissionsFor: "err + permissions option")
  | OtherChannel

text \<open>
  A channel object as the client returns it. \<open>permissionsFor\<close> is what
  \<^verbatim>\<open>channel.permissionsFor(client.user!)\<close> gives: it throws, returns \<^verbatim>\<open>null\<close>, or returns
  the permission flags. What \<^verbatim>\<open>client.channels.fetch\<close> gives is of type
  \<open>err + channel option\<close>: the promise rejects, resolves to \<^verbatim>\<open>null\<close>, or resolves to a
  channel.
\<close>

definition has_flag :: "permissions option \<Rightarrow> (permissions \<Rightarrow> bool) \<Rightarrow> jsval" where
  \<comment> \<open>\<^verbatim>\<open>permissions?.has(flag)\<close>\<close>
  "has_flag p f = (case p of None \<Rightarrow> Undefined | Some q \<Rightarrow> Bool (f q))"

definition truthy :: "jsval \<Rightarrow> bool" where
  "truthy v = (case v of Bool b \<Rightarrow> b | Undefined \<Rightarrow> False | Str x \<Rightarrow> x \<noteq> [] | Num n \<Rightarrow> n \<noteq> 0 | _ \<Rightarrow> True)"

definition verify_try :: "(err + channel option) \<Rightarrow> effect list \<times> (err + unit)" where
  \<comment> \<open>The \<^verbatim>\<open>try\<close> block of \<^verbatim>\<open>verifyChannelAccess\<close> from the point where the awaited
      fetch settles (lines 68 to 91). \<open>Inl\<close> is an exception that leaves the block.\<close>
  "verify_try fetched =
     (case fetched of
        Inl error \<Rightarrow> ([], Inl error)
      | Inr None \<Rightarrow> ([Console CError (cross_mark @ '' Channel not found!'') []], Inr ())
      | Inr (Some OtherChannel) \<Rightarrow>
          ([Console CError (cross_mark @ '' Channel is not a text channel!'') []], Inr ())
      | Inr (Some (TextChannel nm pf)) \<Rightarrow>
          (case pf of
             Inl error \<Rightarrow> ([PermissionsFor], Inl error)
           | Inr perms \<Rightarrow>
               ([PermissionsFor]
                @ debugLog ''Channel permissions:''
                    [Obj [(''sendMessages'', has_flag perms sendMessages),
                          (''attachFiles'', has_flag perms attachFiles),
                          (''viewChannel'', has_flag perms viewChannel)]]
                @ (if \<not> truthy (has_flag perms sendMessages) \<or> \<not> truthy (has_flag perms attachFiles)
                   then [Console CError (cross_mark @ '' Bot lacks required permissions in the channel!'') []]
                   else [Console CLog (check_mark @ '' Successfully verified access to channel: '' @ nm) []]),
                Inr ())))"

definition verify_settled :: "(err + channel option) \<Rightarrow> effect list \<times> (err + unit)" where
  \<comment> \<open>The same with the \<^verbatim>\<open>catch\<close> clause of lines 92 to 94; the result is how the promise
      of \<^verbatim>\<open>verifyChannelAccess\<close> settles.\<close>
  "verify_settled fetched =
     (case verify_try fetched of
        (t, Inl error) \<Rightarrow>
          (t @ [Console CError (cross_mark @ '' Error verifying channel access:'') [Thrown error]], Inr ())
      | (t, Inr u) \<Rightarrow> (t, Inr ()))"

definition setupFileWatcher :: "env \<Rightarrow> effect list" where
  "setupFileWatcher env =
     debugLog ''Setting up file watcher for path:'' [opt_val (env ''WATCH_PATH'')]
     @ [WatcherOn WReady, WatcherOn WAdd]"

record session =
  tag :: "string option"
  user_id :: "string option"
  guilds :: nat

definition onClientReady :: "env \<Rightarrow> session \<Rightarrow> (err + channel option) \<Rightarrow> effect list \<times> (err + unit)" where
  \<comment> \<open>Lines 53 to 64. \<^verbatim>\<open>verifyChannelAccess()\<close> is called without \<^verbatim>\<open>await\<close>: it issues
      the fetch and suspends, \<^verbatim>\<open>setupFileWatcher()\<close> runs, and the verification goes on
      when the fetch has settled. Its promise is dropped, so the second component is an
      unhandled rejection when it is \<open>Inl\<close>.\<close>
  "onClientReady env sess fetched =
     (case verify_settled fetched of (tv, rv) \<Rightarrow>
        ([Console CLog (check_mark @ '' Bot successfully logged in as '' @ interp (tag sess)) []]
         @ debugLog ''Bot is ready with following details:''
             [Obj [(''username'', opt_val (tag sess)), (''id'', opt_val (user_id sess)),
                   (''guilds'', Num (guilds sess))]]
         @ [ChannelsFetch (env ''CHANNEL_ID'')]
         @ setupFileWatcher env
         @ tv, rv))"

section \<open>The handler of a File Event\<close>

record add_world =
  file_exists :: bool
  fetch_result :: "err + channel option"
  send_result :: "err + unit"

text \<open>
  What the outside world answers while one \<^verbatim>\<open>add\<close> event is handled: the result of
  \<^verbatim>\<open>existsSync(filePath)\<close>, how \<^verbatim>\<open>client.channels.fetch\<close> settles and how
  \<^verbatim>\<open>channel.send\<close> settles. An answer is read only if the call is made.
\<close>

definition upload_step :: "env \<Rightarrow> string \<Rightarrow> add_world \<Rightarrow> effect list \<times> (err + unit)" where
  \<comment> \<open>Lines 109 to 129, the body of the \<^verbatim>\<open>if\<close> of line 108.\<close>
  "upload_step env filePath w =
     (let t1 = [Console CLog (file_folder @ '' New PNG file detected: '' @ filePath) [],
                ExistsSync filePath] in
      if \<not> file_exists w
      then (t1 @ [Console CError (cross_mark @ '' File '' @ filePath @ '' no longer exists'') []], Inr ())
      else
        (let t2 = t1 @ [ChannelsFetch (env ''CHANNEL_ID'')] in
         case fetch_result w of
           Inl error \<Rightarrow> (t2, Inl error)
         | Inr None \<Rightarrow> (t2, Inl (Error ''Invalid channel or channel not found''))
         | Inr (Some OtherChannel) \<Rightarrow> (t2, Inl (Error ''Invalid channel or channel not found''))
         | Inr (Some (TextChannel nm pf)) \<Rightarrow>
             (let t3 = t2 @ debugLog ''Attempting to send file to Discord...'' []
                          @ [ChannelSend filePath (basename filePath)] in
              case send_result w of
                Inl error \<Rightarrow> (t3, Inl error)
              | Inr u \<Rightarrow>
                  (t3 @ [Console CLog (check_mark @ '' Successfully posted '' @ filePath @ '' to Discord'') []],
                   Inr ()))))"

definition onAdd_try :: "env \<Rightarrow> string \<Rightarrow> add_world \<Rightarrow> effect list \<times> (err + unit)" where
  \<comment> \<open>The \<^verbatim>\<open>try\<close> block, lines 106 to 130.\<close>
  "onAdd_try env filePath w =
     (case (if is_png filePath then upload_step env filePath w else ([], Inr ())) of
        (t, r) \<Rightarrow> (debugLog ''File detected:'' [Str filePath] @ t, r))"

definition onAdd :: "env \<Rightarrow> string \<Rightarrow> add_world \<Rightarrow> effect list \<times> (err + unit)" where
  \<comment> \<open>The listener of lines 104 to 135; the result is how its promise settles.\<close>
  "onAdd env filePath w =
     (case onAdd_try env filePath w of
        (t, Inl error) \<Rightarrow>
          (t @ [Console CError (cross_mark @ '' Error processing file:'') [Thrown error]]
             @ debugLog ''Error details:'' [Thrown error], Inr ())
      | (t, Inr u) \<Rightarrow> (t, Inr ()))"

section \<open>The process: listeners and the event loop\<close>

datatype status = Alive | Crashed err

record process =
  trace :: "effect list"
  status :: status
  add_listeners :: nat
  ready_listeners :: nat

text \<open>
  The runtime is single-threaded: it runs the top level of the module and then calls the
  registered listeners, one event at a time. A listener that awaits a call lets other events
  in before it goes on; the listeners of this module share no variable, so what one of them
  does is the same whatever runs in between, and the trace keeps the effects of one handler
  together.

  \<open>trace\<close> is everything the process has done so far. \<open>status\<close> becomes \<open>Crashed\<close> on an
  uncaught exception or an unhandled promise rejection, the only ways this module can end
  itself: it never calls \<^verbatim>\<open>process.exit\<close>. The two counters are the listeners that
  \<^verbatim>\<open>setupFileWatcher\<close> has registered for the watcher's \<^verbatim>\<open>add\<close> and \<^verbatim>\<open>ready\<close>
  events; the listeners registered at the top level are there from the start.
\<close>

datatype event =
    LoginResolved
  | LoginRejected err
  | ClientDebug string
  | ClientWarn string
  | ClientError err
  | ClientReady session "err + channel option"
  | WatcherReady
  | WatcherError err
  | WatcherAdd string add_world

text \<open>
  What the runtime can deliver: how the promise of \<^verbatim>\<open>client.login\<close> settles; the \<^verbatim>\<open>debug\<close>,
  \<^verbatim>\<open>warn\<close>, \<^verbatim>\<open>error\<close> and \<^verbatim>\<open>ready\<close> events of the client, which emits \<^verbatim>\<open>ready\<close> when the
  login has succeeded and the session is established; the \<^verbatim>\<open>ready\<close>, \<^verbatim>\<open>error\<close> and
  \<^verbatim>\<open>add\<close> events of the watcher. \<open>ClientReady\<close> carries what the handler reads of
  \<^verbatim>\<open>client.user\<close> and \<^verbatim>\<open>client.guilds\<close> and how the fetch of the verification settles;
  \<open>WatcherAdd\<close> carries the path and the answers of the outside world.
\<close>

definition settle :: "process \<Rightarrow> effect list \<times> (err + unit) \<Rightarrow> process" where
  \<comment> \<open>Run a handler: its effects join the trace, and a rejection nobody handles ends the process.\<close>
  "settle s h =
     (case h of
        (t, Inl error) \<Rightarrow> s\<lparr>trace := trace s @ t, status := Crashed error\<rparr>
      | (t, Inr u) \<Rightarrow> s\<lparr>trace := trace s @ t\<rparr>)"

definition emit :: "nat \<Rightarrow> effect list \<times> (err + unit) \<Rightarrow> process \<Rightarrow> process" where
  \<comment> \<open>An event with \<open>n\<close> registered listeners calls each of them.\<close>
  "emit n h s = ((\<lambda>s'. settle s' h) ^^ n) s"

definition dispatch :: "env \<Rightarrow> process \<Rightarrow> event \<Rightarrow> process" where
  "dispatch env s ev =
     (if status s \<noteq> Alive then s
      else case ev of
        LoginResolved \<Rightarrow> s
      | LoginRejected error \<Rightarrow>
          settle s ([Console CError (cross_mark @ '' Failed to connect to Discord:'') [Thrown error]]
                    @ debugLog ''Login error details:'' [Thrown error], Inr ())
      | ClientDebug info \<Rightarrow> settle s (debugLog ''Discord Debug:'' [Str info], Inr ())
      | ClientWarn info \<Rightarrow> settle s ([Console CWarn ''Discord Warning:'' [Str info]], Inr ())
      | ClientError error \<Rightarrow> settle s ([Console CError ''Discord Error:'' [Thrown error]], Inr ())
      | ClientReady sess fetched \<Rightarrow>
          settle (s\<lparr>add_listeners := Suc (add_listeners s), ready_listeners := Suc (ready_listeners s)\<rparr>)
                 (onClientReady env sess fetched)
      | WatcherReady \<Rightarrow>
          emit (ready_listeners s)
               ([Console CLog (check_mark @ '' File watcher initialized and ready'') []], Inr ()) s
      | WatcherError error \<Rightarrow>
          settle s ([Console CError (cross_mark @ '' File watcher error:'') [Thrown error]]
                    @ debugLog ''Watcher error details:'' [Thrown error], Inr ())
      | WatcherAdd filePath w \<Rightarrow> emit (add_listeners s) (onAdd env filePath w) s)"

definition boot :: "env \<Rightarrow> process" where
  "boot env =
     (case main env of
        (t, Inl error) \<Rightarrow> \<lparr>trace = t, status = Crashed error, add_listeners = 0, ready_listeners = 0\<rparr>
      | (t, Inr u) \<Rightarrow> \<lparr>trace = t, status = Alive, add_listeners = 0, ready_listeners = 0\<rparr>)"

definition run :: "env \<Rightarrow> event list \<Rightarrow> process" where
  \<comment> \<open>The module's top level, then the events the runtime delivers, one after the other.\<close>
  "run env evs = foldl (dispatch env) (boot env) evs"

definition env0 :: env where
  "env0 = map_of [(''DISCORD_TOKEN'', ''secret''), (''CHANNEL_ID'', ''42''), (''WATCH_PATH'', ''/watch'')]"

definition text_channel :: channel where
  "text_channel = TextChannel ''renders'' (Inr (Some (Permissions True True True)))"

definition world_ok :: add_world where
  "world_ok = \<lparr>file_exists = True, fetch_result = Inr (Some text_channel), send_result = Inr ()\<rparr>"

definition session0 :: session where
  "session0 = \<lparr>tag = Some ''relay#0001'', user_id = Some ''7'', guilds = 1\<rparr>"

section \<open>Reading a trace\<close>

fun is_console :: "effect \<Rightarrow> bool" where
  "is_console (Console m t a) = True"
| "is_console _ = False"

fun is_send :: "effect \<Rightarrow> bool" where
  "is_send (ChannelSend a n) = True"
| "is_send _ = False"

fun is_fetch :: "effect \<Rightarrow> bool" where
  "is_fetch (ChannelsFetch c) = True"
| "is_fetch _ = False"

fun is_login :: "effect \<Rightarrow> bool" where
  "is_login (Login t) = True"
| "is_login _ = False"

fun is_watch :: "effect \<Rightarrow> bool" where
  "is_watch (ChokidarWatch p) = True"
| "is_watch _ = False"

fun is_ready :: "event \<Rightarrow> bool" where
  "is_ready (ClientReady sess fetched) = True"
| "is_ready _ = False"

definition calls :: "effect list \<Rightarrow> effect list" where
  \<comment> \<open>What a trace does besides writing to the console.\<close>
  "calls t = filter (\<lambda>e. \<not> is_console e) t"


definition effects_before :: "effect \<Rightarrow> effect list \<Rightarrow> effect list" where
  \<comment> \<open>The part of a trace before the first occurrence of \<open>x\<close>.\<close>
  "effects_before x t = takeWhile (\<lambda>e. e \<noteq> x) t"

definition configured :: "env \<Rightarrow> bool" where
  "configured env \<longleftrightarrow> list_all (\<lambda>v. \<not> falsy (env v)) requiredEnvVars"


definition set_line :: "env \<Rightarrow> string \<Rightarrow> effect" where
  \<comment> \<open>The diagnostic line of line 25 for one variable.\<close>
  "set_line env v =
     Console CLog (''[DEBUG] '' @ v @ '' is set to: '' @
                   (if v = ''DISCORD_TOKEN'' then ''[HIDDEN]'' else interp (env v))) []"

section \<open>Facts about the handlers\<close>

lemmas handler_defs = onAdd_def onAdd_try_def upload_step_def debugLog_def DEBUG_def

lemma onAdd_settles: "snd (onAdd env p w) = Inr ()"
  by (simp add: onAdd_def split: prod.splits sum.splits)

lemma emit_ok: "emit n (t, Inr ()) s = s\<lparr>trace := trace s @ concat (replicate n t)\<rparr>"
proof (induction n arbitrary: s)
  case 0
  show ?case by (simp add: emit_def)
next
  case (Suc n)
  have "emit (Suc n) (t, Inr ()) s = emit n (t, Inr ()) (settle s (t, Inr ()))"
    unfolding emit_def funpow_Suc_right by simp
  then show ?case
    by (simp add: Suc settle_def)
qed

lemma emit_onAdd:
  "emit n (onAdd env p w) s = s\<lparr>trace := trace s @ concat (replicate n (fst (onAdd env p w)))\<rparr>"
  using emit_ok [of n "fst (onAdd env p w)" s] onAdd_settles [of env p w]
  by (metis prod.collapse)

lemma not_png_trace:
  "\<not> is_png p \<Longrightarrow> onAdd env p w = ([Console CLog ''[DEBUG] File detected:'' [Str p]], Inr ())"
  by (simp add: handler_defs)

lemma png_vanished_trace:
  "is_png p \<Longrightarrow> \<not> file_exists w \<Longrightarrow>
   onAdd env p w =
     ([Console CLog ''[DEBUG] File detected:'' [Str p],
       Console CLog (file_folder @ '' New PNG file detected: '' @ p) [],
       ExistsSync p,
       Console CError (cross_mark @ '' File '' @ p @ '' no longer exists'') []], Inr ())"
  by (simp add: handler_defs)

lemma calls_onAdd:
  "calls (fst (onAdd env p w)) =
     (if \<not> is_png p then []
      else if \<not> file_exists w then [ExistsSync p]
      else case fetch_result w of
             Inr (Some (TextChannel nm pf)) \<Rightarrow>
               [ExistsSync p, ChannelsFetch (env ''CHANNEL_ID''), ChannelSend p (basename p)]
           | _ \<Rightarrow> [ExistsSync p, ChannelsFetch (env ''CHANNEL_ID'')])"
  by (simp add: handler_defs calls_def Let_def split: sum.splits option.splits channel.splits)

lemma in_calls: "\<not> is_console e \<Longrightarrow> e \<in> set t \<longleftrightarrow> e \<in> set (calls t)"
  by (simp add: calls_def)

lemma filter_calls: "(\<And>e. P e \<Longrightarrow> \<not> is_console e) \<Longrightarrow> filter P (calls t) = filter P t"
  by (induction t) (auto simp: calls_def)

lemma dispatch_dead: "status s \<noteq> Alive \<Longrightarrow> foldl (dispatch env) s evs = s"
  by (induction evs) (simp_all add: dispatch_def)

lemma validate_trace:
  "fst (validate env vs) = map (set_line env) (takeWhile (\<lambda>v. \<not> falsy (env v)) vs)"
  by (induction vs) (simp_all add: set_line_def debugLog_def DEBUG_def case_prod_unfold)

lemma validate_result:
  "snd (validate env vs) =
     (case dropWhile (\<lambda>v. \<not> falsy (env v)) vs of
        [] \<Rightarrow> Inr ()
      | u # _ \<Rightarrow> Inl (Error (''Missing required environment variable: '' @ u)))"
  by (induction vs) (simp_all add: case_prod_unfold)

lemma validate_missing:
  assumes "v \<in> set vs" and "falsy (env v)"
  shows "\<exists>u \<in> set vs. falsy (env u) \<and>
           snd (validate env vs) = Inl (Error (''Missing required environment variable: '' @ u))"
proof -
  from assms have "dropWhile (\<lambda>v. \<not> falsy (env v)) vs \<noteq> []"
    by auto
  then obtain u rest where d: "dropWhile (\<lambda>v. \<not> falsy (env v)) vs = u # rest"
    by (cases "dropWhile (\<lambda>v. \<not> falsy (env v)) vs") auto
  then have "falsy (env u)"
    using hd_dropWhile [of "\<lambda>v. \<not> falsy (env v)" vs] by auto
  moreover have "u \<in> set vs"
    using d set_dropWhileD [of u "\<lambda>v. \<not> falsy (env v)" vs] by simp
  ultimately show ?thesis
    using d by (auto simp: validate_result)
qed

lemma validate_console: "e \<in> set (fst (validate env vs)) \<Longrightarrow> is_console e"
  by (auto simp: validate_trace set_line_def)

lemma validate_configured:
  "configured env \<Longrightarrow> validate env requiredEnvVars = (map (set_line env) requiredEnvVars, Inr ())"
  by (simp add: configured_def requiredEnvVars_def set_line_def debugLog_def DEBUG_def)

lemma main_configured:
  "configured env \<Longrightarrow>
   main env =
     (DotenvConfig # map (set_line env) requiredEnvVars @
      [NewClient, ChokidarWatch (env ''WATCH_PATH''),
       ClientOn EvDebug, ClientOn EvWarn, ClientOn EvError, ClientOn EvClientReady,
       WatcherOn WError,
       Console CLog (arrows @ '' Attempting to connect to Discord...'') [],
       Login (env ''DISCORD_TOKEN'')], Inr ())"
  by (simp add: main_def validate_configured)

lemma boot_configured:
  "configured env \<Longrightarrow>
   status (boot env) = Alive \<and> add_listeners (boot env) = 0 \<and> ready_listeners (boot env) = 0 \<and>
   trace (boot env) = fst (main env)"
  by (simp add: boot_def main_configured)

section \<open>Start-up\<close>

text \<open>
  Claim C2. If one of the three required variables (\<^verbatim>\<open>DISCORD_TOKEN\<close>, \<^verbatim>\<open>CHANNEL_ID\<close>,
  \<^verbatim>\<open>WATCH_PATH\<close>) is unset or empty, the module ends with the uncaught error
  \<^verbatim>\<open>Missing required environment variable: u\<close>, where \<open>u\<close> is a required variable that is
  unset or empty (the first one in the order of the check). Up to that point it has only loaded
  the dotenv file and written diagnostic lines: there is no client, no login, no fetch, no
  watcher. Whatever the runtime delivers afterwards, nothing more happens.
\<close>

theorem missing_config_aborts:
  assumes "v \<in> set requiredEnvVars" and "falsy (env v)"
  shows "\<exists>u \<in> set requiredEnvVars. falsy (env u) \<and>
           snd (main env) = Inl (Error (''Missing required environment variable: '' @ u)) \<and>
           (\<forall>e \<in> set (fst (main env)). e = DotenvConfig \<or> is_console e) \<and>
           (\<forall>evs. status (run env evs) = Crashed (Error (''Missing required environment variable: '' @ u)) \<and>
                  trace (run env evs) = fst (main env))"
proof -
  from validate_missing [of v requiredEnvVars env, OF assms] obtain u where u: "u \<in> set requiredEnvVars" "falsy (env u)"
    and r: "snd (validate env requiredEnvVars) =
              Inl (Error (''Missing required environment variable: '' @ u))"
    by blast
  obtain t where v: "validate env requiredEnvVars =
                       (t, Inl (Error (''Missing required environment variable: '' @ u)))"
    using r by (cases "validate env requiredEnvVars") auto
  have m: "main env = (DotenvConfig # t, Inl (Error (''Missing required environment variable: '' @ u)))"
    by (simp add: main_def v)
  have c: "\<forall>e \<in> set (fst (main env)). e = DotenvConfig \<or> is_console e"
    using validate_console [of _ env requiredEnvVars] by (auto simp: m v)
  have b: "boot env = \<lparr>trace = DotenvConfig # t,
                       status = Crashed (Error (''Missing required environment variable: '' @ u)),
                       add_listeners = 0, ready_listeners = 0\<rparr>"
    by (simp add: boot_def m)
  have "\<forall>evs. run env evs = boot env"
    by (simp add: run_def dispatch_dead b)
  with u m c b show ?thesis
    by auto
qed

theorem missing_config_aborts_witness:
  "''CHANNEL_ID'' \<in> set requiredEnvVars \<and> falsy ((env0(''CHANNEL_ID'' := Some [])) ''CHANNEL_ID'') \<and>
   (\<exists>u \<in> set requiredEnvVars. falsy ((env0(''CHANNEL_ID'' := Some [])) u) \<and>
      snd (main (env0(''CHANNEL_ID'' := Some []))) =
        Inl (Error (''Missing required environment variable: '' @ u)) \<and>
      (\<forall>e \<in> set (fst (main (env0(''CHANNEL_ID'' := Some [])))). e = DotenvConfig \<or> is_console e) \<and>
      (\<forall>evs. status (run (env0(''CHANNEL_ID'' := Some [])) evs) =
               Crashed (Error (''Missing required environment variable: '' @ u)) \<and>
             trace (run (env0(''CHANNEL_ID'' := Some [])) evs) = fst (main (env0(''CHANNEL_ID'' := Some [])))))"
proof -
  have h1: "''CHANNEL_ID'' \<in> set requiredEnvVars"
    by (simp add: requiredEnvVars_def)
  have h2: "falsy ((env0(''CHANNEL_ID'' := Some [])) ''CHANNEL_ID'')"
    by (simp add: falsy_def)
  from missing_config_aborts [of "''CHANNEL_ID''" "env0(''CHANNEL_ID'' := Some [])", OF h1 h2] h1 h2 show ?thesis
    by blast
qed


section \<open>What the path functions compute\<close>

lemma basename_loop_skip:
  "k \<le> length fname \<Longrightarrow> CHR ''/'' \<notin> set fname \<Longrightarrow> bend s \<noteq> -1 \<Longrightarrow>
   basename_loop (pre @ fname @ post) (length pre + k) s = basename_loop (pre @ fname @ post) (length pre) s"
proof (induction k)
  case 0
  show ?case by simp
next
  case (Suc k)
  then have lt: "k < length fname"
    by simp
  with Suc.prems(2) have "fname ! k \<noteq> CHR ''/''"
    by (metis nth_mem)
  with lt have "(pre @ fname @ post) ! (length pre + k) \<noteq> CHR ''/''"
    by (simp add: nth_append)
  with Suc show ?case
    by simp
qed

lemma basename_loop_name:
  assumes "fname \<noteq> []" and "CHR ''/'' \<notin> set fname"
  shows "basename_loop (pre @ fname) (length (pre @ fname)) \<lparr>bstart = 0, bend = -1, bmatchedSlash = True\<rparr> =
         basename_loop (pre @ fname) (length pre)
           \<lparr>bstart = 0, bend = int (length (pre @ fname)), bmatchedSlash = False\<rparr>"
proof -
  from assms(1) obtain k where k: "length fname = Suc k"
    by (cases fname) auto
  have lt: "k < length fname"
    using k by simp
  with assms(2) have "fname ! k \<noteq> CHR ''/''"
    by (metis nth_mem)
  with lt have c: "(pre @ fname) ! (length pre + k) \<noteq> CHR ''/''"
    by (simp add: nth_append)
  have "basename_loop (pre @ fname) (Suc (length pre + k)) \<lparr>bstart = 0, bend = -1, bmatchedSlash = True\<rparr> =
        basename_loop (pre @ fname) (length pre + k)
          \<lparr>bstart = 0, bend = int (length pre + k) + 1, bmatchedSlash = False\<rparr>"
    using c by simp
  also have "\<dots> = basename_loop (pre @ fname) (length pre)
          \<lparr>bstart = 0, bend = int (length pre + k) + 1, bmatchedSlash = False\<rparr>"
    using basename_loop_skip [of k fname _ pre "[]"] assms(2) k by simp
  finally show ?thesis
    using k by (simp add: add.commute)
qed

lemma basename_plain:
  assumes "fname \<noteq> []" and "CHR ''/'' \<notin> set fname"
  shows "basename fname = fname"
  using basename_loop_name [OF assms, of "[]"] by (simp add: basename_def slice_def)

lemma basename_in_dir:
  assumes "fname \<noteq> []" and "CHR ''/'' \<notin> set fname"
  shows "basename (dir @ ''/'' @ fname) = fname"
proof -
  have "basename_loop ((dir @ ''/'') @ fname) (length ((dir @ ''/'') @ fname))
          \<lparr>bstart = 0, bend = -1, bmatchedSlash = True\<rparr> =
        basename_loop ((dir @ ''/'') @ fname) (length (dir @ ''/''))
          \<lparr>bstart = 0, bend = int (length ((dir @ ''/'') @ fname)), bmatchedSlash = False\<rparr>"
    by (rule basename_loop_name [OF assms])
  also have "\<dots> = \<lparr>bstart = int (length dir) + 1, bend = int (length ((dir @ ''/'') @ fname)),
                     bmatchedSlash = False\<rparr>"
    by (simp add: nth_append)
  finally show ?thesis
    by (simp add: basename_def slice_def nat_add_distrib)
qed


lemma extname_loop_ext:
  "k \<le> length ext \<Longrightarrow> CHR ''/'' \<notin> set ext \<Longrightarrow> CHR ''.'' \<notin> set ext \<Longrightarrow>
   endPos s \<noteq> -1 \<Longrightarrow> startDot s = -1 \<Longrightarrow>
   extname_loop (pre @ ext @ post) (length pre + k) s = extname_loop (pre @ ext @ post) (length pre) s"
proof (induction k)
  case 0
  show ?case by simp
next
  case (Suc k)
  then have lt: "k < length ext"
    by simp
  with Suc.prems(2,3) have "ext ! k \<noteq> CHR ''/''" "ext ! k \<noteq> CHR ''.''"
    by (metis nth_mem)+
  with lt have "(pre @ ext @ post) ! (length pre + k) \<noteq> CHR ''/''"
    "(pre @ ext @ post) ! (length pre + k) \<noteq> CHR ''.''"
    by (simp_all add: nth_append)
  with Suc show ?case
    by simp
qed

lemma extname_loop_stem:
  "k \<le> length stem \<Longrightarrow> CHR ''/'' \<notin> set stem \<Longrightarrow> endPos s \<noteq> -1 \<Longrightarrow> startDot s \<noteq> -1 \<Longrightarrow>
   \<exists>q. (0 < k \<longrightarrow> q \<noteq> 0) \<and> (q = preDotState s \<or> q = 1 \<or> q = -1) \<and>
       extname_loop (pre @ stem @ post) (length pre + k) s =
       extname_loop (pre @ stem @ post) (length pre) (s\<lparr>preDotState := q\<rparr>)"
proof (induction k arbitrary: s)
  case 0
  show ?case by (rule exI [of _ "preDotState s"]) simp
next
  case (Suc k)
  then have lt: "k < length stem"
    by simp
  with Suc.prems(2) have "stem ! k \<noteq> CHR ''/''"
    by (metis nth_mem)
  with lt have c: "(pre @ stem @ post) ! (length pre + k) \<noteq> CHR ''/''"
    by (simp add: nth_append)
  define r :: int where
    "r = (if (pre @ stem @ post) ! (length pre + k) = CHR ''.'' then 1 else -1)"
  have step: "extname_loop (pre @ stem @ post) (length pre + Suc k) s =
              extname_loop (pre @ stem @ post) (length pre + k) (s\<lparr>preDotState := r\<rparr>)"
  proof (cases "preDotState s = 1")
    case True
    then have eq: "s\<lparr>preDotState := 1\<rparr> = s"
      by simp
    from True c Suc.prems(3,4) show ?thesis
      by (simp add: r_def eq)
  next
    case False
    with c Suc.prems(3,4) show ?thesis
      by (simp add: r_def)
  qed
  have r: "r = 1 \<or> r = -1"
    by (simp add: r_def)
  from Suc.IH [of "s\<lparr>preDotState := r\<rparr>"] Suc.prems lt obtain q
    where q: "q = r \<or> q = 1 \<or> q = -1"
      "extname_loop (pre @ stem @ post) (length pre + k) (s\<lparr>preDotState := r\<rparr>) =
       extname_loop (pre @ stem @ post) (length pre) (s\<lparr>preDotState := q\<rparr>)"
    by auto
  from q(1) r have "q \<noteq> 0" "q = preDotState s \<or> q = 1 \<or> q = -1"
    by auto
  with step q(2) show ?case
    by auto
qed

lemma extname_loop_file:
  assumes "stem \<noteq> []" and "CHR ''/'' \<notin> set stem"
    and "ext \<noteq> []" and "CHR ''/'' \<notin> set ext" and "CHR ''.'' \<notin> set ext"
  shows "\<exists>q. q \<noteq> 0 \<and>
           extname_loop (pre @ stem @ ''.'' @ ext) (length (pre @ stem @ ''.'' @ ext)) ext_init =
           extname_loop (pre @ stem @ ''.'' @ ext) (length pre)
             \<lparr>startDot = int (length (pre @ stem)), startPart = 0,
              endPos = int (length (pre @ stem @ ''.'' @ ext)), matchedSlash = False,
              preDotState = q\<rparr>"
proof -
  let ?path = "pre @ stem @ ''.'' @ ext"
  let ?n = "length ?path"
  from assms(3) obtain k where k: "length ext = Suc k"
    by (cases ext) auto
  have lt: "k < length ext"
    using k by simp
  with assms(4,5) have "ext ! k \<noteq> CHR ''/''" "ext ! k \<noteq> CHR ''.''"
    by (metis nth_mem)+
  with lt have c: "?path ! (length (pre @ stem @ ''.'') + k) \<noteq> CHR ''/''"
    "?path ! (length (pre @ stem @ ''.'') + k) \<noteq> CHR ''.''"
    using nth_append_length_plus [of "pre @ stem @ ''.''" ext k] by simp_all
  have n: "?n = Suc (length (pre @ stem @ ''.'') + k)"
    using k by simp
  let ?s1 = "\<lparr>startDot = -1, startPart = 0, endPos = int ?n, matchedSlash = False, preDotState = 0\<rparr>"
  have "extname_loop ?path ?n ext_init = extname_loop ?path (length (pre @ stem @ ''.'') + k) ?s1"
    unfolding n using c by (simp add: ext_init_def)
  also have "\<dots> = extname_loop ?path (length (pre @ stem @ ''.'')) ?s1"
    using extname_loop_ext [of k ext ?s1 "pre @ stem @ ''.''" "[]"] lt assms(4,5) by simp
  also have "\<dots> = extname_loop ?path (length (pre @ stem)) (?s1\<lparr>startDot := int (length (pre @ stem))\<rparr>)"
    using nth_append_length [of "pre @ stem" "CHR ''.''" ext] by simp
  finally have a: "extname_loop ?path ?n ext_init =
                   extname_loop ?path (length pre + length stem) (?s1\<lparr>startDot := int (length (pre @ stem))\<rparr>)"
    by simp
  from extname_loop_stem [of "length stem" stem "?s1\<lparr>startDot := int (length (pre @ stem))\<rparr>" pre "''.'' @ ext"]
       assms(1,2)
  obtain q where q: "q \<noteq> 0"
    "extname_loop ?path (length pre + length stem) (?s1\<lparr>startDot := int (length (pre @ stem))\<rparr>) =
     extname_loop ?path (length pre) (?s1\<lparr>startDot := int (length (pre @ stem)), preDotState := q\<rparr>)"
    by auto
  with a show ?thesis
    by auto
qed

lemma extname_plain:
  assumes "stem \<noteq> []" and "CHR ''/'' \<notin> set stem"
    and "ext \<noteq> []" and "CHR ''/'' \<notin> set ext" and "CHR ''.'' \<notin> set ext"
  shows "extname (stem @ ''.'' @ ext) = ''.'' @ ext"
proof -
  from extname_loop_file [OF assms, of "[]"] obtain q where "q \<noteq> 0"
    "extname_loop (stem @ ''.'' @ ext) (length (stem @ ''.'' @ ext)) ext_init =
       \<lparr>startDot = int (length stem), startPart = 0,
        endPos = int (length (stem @ ''.'' @ ext)), matchedSlash = False, preDotState = q\<rparr>"
    by auto
  with assms(3) show ?thesis
    by (simp add: extname_def slice_def)
qed

lemma extname_in_dir:
  assumes "stem \<noteq> []" and "CHR ''/'' \<notin> set stem"
    and "ext \<noteq> []" and "CHR ''/'' \<notin> set ext" and "CHR ''.'' \<notin> set ext"
  shows "extname (dir @ ''/'' @ stem @ ''.'' @ ext) = ''.'' @ ext"
proof -
  let ?path = "(dir @ ''/'') @ stem @ ''.'' @ ext"
  from extname_loop_file [OF assms, of "dir @ ''/''"] obtain q where q: "q \<noteq> 0"
    "extname_loop ?path (length ?path) ext_init =
     extname_loop ?path (length (dir @ ''/''))
       \<lparr>startDot = int (length ((dir @ ''/'') @ stem)), startPart = 0,
        endPos = int (length ?path), matchedSlash = False, preDotState = q\<rparr>"
    by auto
  have "extname_loop ?path (length (dir @ ''/''))
       \<lparr>startDot = int (length ((dir @ ''/'') @ stem)), startPart = 0,
        endPos = int (length ?path), matchedSlash = False, preDotState = q\<rparr> =
       \<lparr>startDot = int (length ((dir @ ''/'') @ stem)), startPart = int (length dir) + 1,
        endPos = int (length ?path), matchedSlash = False, preDotState = q\<rparr>"
    by (simp add: nth_append)
  with q assms(3) have "extname ?path = ''.'' @ ext"
    by (simp add: extname_def slice_def nat_add_distrib)
  then show ?thesis
    by simp
qed


section \<open>The extension filter\<close>

lemma lower_char_eq:
  "lower_char c = d \<longleftrightarrow>
     (if 65 \<le> (of_char c :: nat) \<and> (of_char c :: nat) \<le> 90
      then (of_char d :: nat) = of_char c + 32 else c = d)"
proof (cases "65 \<le> (of_char c :: nat) \<and> (of_char c :: nat) \<le> 90")
  case True
  then have "take_bit 8 (of_char c + 32 :: nat) = of_char c + 32"
    by (simp add: take_bit_nat_eq_self_iff)
  with True show ?thesis
    by (auto simp: lower_char_def Let_def char_of_eq_iff)
next
  case False
  then show ?thesis by (auto simp: lower_char_def Let_def)
qed

lemma lower_is_dot: "lower_char c = CHR ''.'' \<longleftrightarrow> c = CHR ''.''"
  by (cases c) (auto simp: lower_char_eq)

lemma lower_is_p: "lower_char c = CHR ''p'' \<longleftrightarrow> c = CHR ''p'' \<or> c = CHR ''P''"
  by (cases c) (auto simp: lower_char_eq)

lemma lower_is_n: "lower_char c = CHR ''n'' \<longleftrightarrow> c = CHR ''n'' \<or> c = CHR ''N''"
  by (cases c) (auto simp: lower_char_eq)

lemma lower_is_g: "lower_char c = CHR ''g'' \<longleftrightarrow> c = CHR ''g'' \<or> c = CHR ''G''"
  by (cases c) (auto simp: lower_char_eq)

lemma lower_png:
  "toLowerCase s = ''.png'' \<longleftrightarrow>
     (\<exists>a b c. s = [CHR ''.'', a, b, c] \<and> (a = CHR ''p'' \<or> a = CHR ''P'') \<and>
              (b = CHR ''n'' \<or> b = CHR ''N'') \<and> (c = CHR ''g'' \<or> c = CHR ''G''))"
  unfolding toLowerCase_def
  by (auto simp: map_eq_Cons_conv lower_is_dot lower_is_p lower_is_n lower_is_g)

text \<open>
  Claim C1. An \<^verbatim>\<open>add\<close> event reaches the upload step (lines 109 to 129) if and only if the
  extension of its path is \<^verbatim>\<open>.png\<close> in some mix of upper and lower case: then the
  \<^verbatim>\<open>try\<close> block is the debug trace followed by the upload step, whose first call
  \<^verbatim>\<open>existsSync(filePath)\<close> is in the trace exactly in this case. Otherwise the handler writes
  the one debug line \<^verbatim>\<open>[DEBUG] File detected:\<close> and does nothing else. For a file name
  \<^verbatim>\<open>stem.ext\<close>, alone or after a directory, whose \<^verbatim>\<open>ext\<close> is not empty and has no dot, the
  event qualifies exactly when \<^verbatim>\<open>ext\<close> is \<^verbatim>\<open>png\<close> up to case. \<^verbatim>\<open>a.PNG\<close> and
  \<^verbatim>\<open>a.png\<close> qualify; \<^verbatim>\<open>a.jpg\<close> and \<^verbatim>\<open>a.png.bak\<close> do not.
\<close>

theorem png_filter:
  "(is_png p \<longleftrightarrow>
      (\<exists>a b c. extname p = [CHR ''.'', a, b, c] \<and> (a = CHR ''p'' \<or> a = CHR ''P'') \<and>
               (b = CHR ''n'' \<or> b = CHR ''N'') \<and> (c = CHR ''g'' \<or> c = CHR ''G''))) \<and>
   (is_png p \<longrightarrow>
      onAdd_try env p w =
        (debugLog ''File detected:'' [Str p] @ fst (upload_step env p w), snd (upload_step env p w))) \<and>
   (\<not> is_png p \<longrightarrow> onAdd env p w = ([Console CLog ''[DEBUG] File detected:'' [Str p]], Inr ())) \<and>
   (ExistsSync p \<in> set (fst (onAdd env p w)) \<longleftrightarrow> is_png p) \<and>
   (stem \<noteq> [] \<and> CHR ''/'' \<notin> set stem \<and> ext \<noteq> [] \<and> CHR ''/'' \<notin> set ext \<and> CHR ''.'' \<notin> set ext \<longrightarrow>
      (is_png (dir @ ''/'' @ stem @ ''.'' @ ext) \<longleftrightarrow> toLowerCase ext = ''png'') \<and>
      (is_png (stem @ ''.'' @ ext) \<longleftrightarrow> toLowerCase ext = ''png'')) \<and>
   is_png ''a.PNG'' \<and> is_png ''a.png'' \<and> \<not> is_png ''a.jpg'' \<and> \<not> is_png ''a.png.bak''"
proof -
  have a: "is_png p \<longleftrightarrow>
      (\<exists>a b c. extname p = [CHR ''.'', a, b, c] \<and> (a = CHR ''p'' \<or> a = CHR ''P'') \<and>
               (b = CHR ''n'' \<or> b = CHR ''N'') \<and> (c = CHR ''g'' \<or> c = CHR ''G''))"
    unfolding is_png_def by (rule lower_png)
  have b: "is_png p \<longrightarrow>
      onAdd_try env p w =
        (debugLog ''File detected:'' [Str p] @ fst (upload_step env p w), snd (upload_step env p w))"
    by (simp add: onAdd_try_def case_prod_unfold)
  have c: "\<not> is_png p \<longrightarrow> onAdd env p w = ([Console CLog ''[DEBUG] File detected:'' [Str p]], Inr ())"
    by (simp add: not_png_trace)
  have "ExistsSync p \<in> set (fst (onAdd env p w)) \<longleftrightarrow> ExistsSync p \<in> set (calls (fst (onAdd env p w)))"
    by (rule in_calls) simp
  also have "\<dots> \<longleftrightarrow> is_png p"
    by (simp add: calls_onAdd split: sum.splits option.splits channel.splits)
  finally have d: "ExistsSync p \<in> set (fst (onAdd env p w)) \<longleftrightarrow> is_png p" .
  have e: "is_png ''a.PNG''" "is_png ''a.png''" "\<not> is_png ''a.jpg''" "\<not> is_png ''a.png.bak''"
    by code_simp+
  have f: "stem \<noteq> [] \<and> CHR ''/'' \<notin> set stem \<and> ext \<noteq> [] \<and> CHR ''/'' \<notin> set ext \<and> CHR ''.'' \<notin> set ext \<longrightarrow>
      (is_png (dir @ ''/'' @ stem @ ''.'' @ ext) \<longleftrightarrow> toLowerCase ext = ''png'') \<and>
      (is_png (stem @ ''.'' @ ext) \<longleftrightarrow> toLowerCase ext = ''png'')"
    using extname_in_dir [of stem ext dir] extname_plain [of stem ext]
    by (auto simp: is_png_def toLowerCase_def lower_is_dot)
  from a b c d e f show ?thesis
    by blast
qed

theorem png_filter_witness:
  "is_png ''/watch/Shot.PnG'' \<and>
   onAdd_try env0 ''/watch/Shot.PnG'' world_ok =
     (debugLog ''File detected:'' [Str ''/watch/Shot.PnG''] @ fst (upload_step env0 ''/watch/Shot.PnG'' world_ok),
      snd (upload_step env0 ''/watch/Shot.PnG'' world_ok)) \<and>
   \<not> is_png ''/watch/notes.txt'' \<and>
   onAdd env0 ''/watch/notes.txt'' world_ok =
     ([Console CLog ''[DEBUG] File detected:'' [Str ''/watch/notes.txt'']], Inr ()) \<and>
   ''Shot'' \<noteq> [] \<and> CHR ''/'' \<notin> set ''Shot'' \<and> ''PnG'' \<noteq> [] \<and> CHR ''/'' \<notin> set ''PnG'' \<and>
   CHR ''.'' \<notin> set ''PnG'' \<and>
   (is_png (''/watch'' @ ''/'' @ ''Shot'' @ ''.'' @ ''PnG'') \<longleftrightarrow> toLowerCase ''PnG'' = ''png'')"
proof -
  have h1: "is_png ''/watch/Shot.PnG''" by code_simp
  have h2: "\<not> is_png ''/watch/notes.txt''" by code_simp
  have h3: "''Shot'' \<noteq> [] \<and> CHR ''/'' \<notin> set ''Shot'' \<and> ''PnG'' \<noteq> [] \<and> CHR ''/'' \<notin> set ''PnG'' \<and>
            CHR ''.'' \<notin> set ''PnG''"
    by simp
  from png_filter [of "''/watch/Shot.PnG''" env0 world_ok "''Shot''" "''PnG''" "''/watch''"]
       png_filter [of "''/watch/notes.txt''" env0 world_ok] h1 h2 h3
  show ?thesis by blast
qed


section \<open>One File Event\<close>

lemma dispatch_add:
  "status s = Alive \<Longrightarrow>
   dispatch env s (WatcherAdd p w) =
     s\<lparr>trace := trace s @ concat (replicate (add_listeners s) (fst (onAdd env p w)))\<rparr>"
  by (simp add: dispatch_def emit_onAdd)




text \<open>
  Claim C6. When the path has the PNG extension and \<^verbatim>\<open>existsSync\<close> answers that the file is
  gone, the handler writes the error line \<^verbatim>\<open>File ... no longer exists\<close> and returns: no channel
  is fetched and nothing is sent. The process keeps nothing of the event but its trace, so
  nothing can take the event up again.
\<close>

theorem vanished_file_dropped:
  assumes "is_png p" and "\<not> file_exists w"
  shows "onAdd env p w =
           ([Console CLog ''[DEBUG] File detected:'' [Str p],
             Console CLog (file_folder @ '' New PNG file detected: '' @ p) [],
             ExistsSync p,
             Console CError (cross_mark @ '' File '' @ p @ '' no longer exists'') []], Inr ()) \<and>
         filter is_send (fst (onAdd env p w)) = [] \<and>
         filter is_fetch (fst (onAdd env p w)) = [] \<and>
         (status s = Alive \<longrightarrow>
            dispatch env s (WatcherAdd p w) =
              s\<lparr>trace := trace s @ concat (replicate (add_listeners s) (fst (onAdd env p w)))\<rparr>)"
  using assms by (simp add: png_vanished_trace dispatch_add)

theorem vanished_file_dropped_witness:
  "is_png ''/watch/a.png'' \<and> \<not> file_exists (world_ok\<lparr>file_exists := False\<rparr>) \<and>
   onAdd env0 ''/watch/a.png'' (world_ok\<lparr>file_exists := False\<rparr>) =
     ([Console CLog ''[DEBUG] File detected:'' [Str ''/watch/a.png''],
       Console CLog (file_folder @ '' New PNG file detected: '' @ ''/watch/a.png'') [],
       ExistsSync ''/watch/a.png'',
       Console CError (cross_mark @ '' File '' @ ''/watch/a.png'' @ '' no longer exists'') []], Inr ()) \<and>
   filter is_send (fst (onAdd env0 ''/watch/a.png'' (world_ok\<lparr>file_exists := False\<rparr>))) = []"
proof -
  have h1: "is_png ''/watch/a.png''" by code_simp
  have h2: "\<not> file_exists (world_ok\<lparr>file_exists := False\<rparr>)" by simp
  from vanished_file_dropped [of "''/watch/a.png''" "world_ok\<lparr>file_exists := False\<rparr>" env0, OF h1 h2] h1 h2
  show ?thesis by blast
qed

text \<open>
  Claim C8. When the path has the PNG extension, the file exists and the fetch resolves to a
  text channel, the handler issues exactly one \<^verbatim>\<open>channel.send\<close>: its attachment is the path
  of the event and its display name is \<^verbatim>\<open>path.basename\<close> of that path, which for a file name
  without separator, alone or after a directory, is the file name. This holds whether the send
  then succeeds or is rejected.
\<close>

theorem single_upload:
  assumes "is_png p" and "file_exists w" and "fetch_result w = Inr (Some (TextChannel nm pf))"
  shows "filter is_send (fst (onAdd env p w)) = [ChannelSend p (basename p)] \<and>
         (fname \<noteq> [] \<and> CHR ''/'' \<notin> set fname \<longrightarrow>
            basename (dir @ ''/'' @ fname) = fname \<and> basename fname = fname)"
proof -
  have "filter is_send (fst (onAdd env p w)) = filter is_send (calls (fst (onAdd env p w)))"
    by (rule filter_calls [symmetric]) (auto elim: is_send.elims)
  also have "\<dots> = [ChannelSend p (basename p)]"
    using assms by (simp add: calls_onAdd)
  finally show ?thesis
    using basename_in_dir [of fname dir] basename_plain [of fname] by simp
qed

theorem single_upload_witness:
  "is_png ''/watch/shot.png'' \<and> file_exists world_ok \<and>
   fetch_result world_ok = Inr (Some (TextChannel ''renders'' (Inr (Some (Permissions True True True))))) \<and>
   filter is_send (fst (onAdd env0 ''/watch/shot.png'' world_ok)) =
     [ChannelSend ''/watch/shot.png'' ''shot.png''] \<and>
   ''shot.png'' \<noteq> [] \<and> CHR ''/'' \<notin> set ''shot.png'' \<and>
   basename (''/watch'' @ ''/'' @ ''shot.png'') = ''shot.png''"
proof -
  have h1: "is_png ''/watch/shot.png''" by code_simp
  have h2: "file_exists world_ok" by (simp add: world_ok_def)
  have h3: "fetch_result world_ok = Inr (Some (TextChannel ''renders'' (Inr (Some (Permissions True True True)))))"
    by (simp add: world_ok_def text_channel_def)
  have b: "basename ''/watch/shot.png'' = ''shot.png''" by code_simp
  have h4: "''shot.png'' \<noteq> [] \<and> CHR ''/'' \<notin> set ''shot.png''"
    by simp
  from single_upload [of "''/watch/shot.png''" world_ok "''renders''" "Inr (Some (Permissions True True True))" env0
                         "''shot.png''" "''/watch''", OF h1 h2 h3] h1 h2 h3 h4 b
  show ?thesis by simp
qed

text \<open>
  Claim C10. The calls one event causes are, in this order, \<^verbatim>\<open>existsSync\<close>, the channel fetch and
  the send, each made only if the one before it was made and passed: none for a path without
  the PNG extension; only \<^verbatim>\<open>existsSync\<close> when the file is gone; the fetch but no send when the
  fetch fails or gives no text channel. So an event that fails the extension filter or the
  existence check causes no fetch and no send.
\<close>

theorem handler_order:
  "calls (fst (onAdd env p w)) =
     (if \<not> is_png p then []
      else if \<not> file_exists w then [ExistsSync p]
      else case fetch_result w of
             Inr (Some (TextChannel nm pf)) \<Rightarrow>
               [ExistsSync p, ChannelsFetch (env ''CHANNEL_ID''), ChannelSend p (basename p)]
           | _ \<Rightarrow> [ExistsSync p, ChannelsFetch (env ''CHANNEL_ID'')]) \<and>
   (\<not> is_png p \<or> \<not> file_exists w \<longrightarrow>
      filter is_fetch (fst (onAdd env p w)) = [] \<and> filter is_send (fst (onAdd env p w)) = [])"
proof -
  have f: "filter is_fetch (fst (onAdd env p w)) = filter is_fetch (calls (fst (onAdd env p w)))"
    by (rule filter_calls [symmetric]) (auto elim: is_fetch.elims)
  have s: "filter is_send (fst (onAdd env p w)) = filter is_send (calls (fst (onAdd env p w)))"
    by (rule filter_calls [symmetric]) (auto elim: is_send.elims)
  show ?thesis
    unfolding f s by (simp add: calls_onAdd)
qed

theorem handler_order_witness:
  "\<not> is_png ''/watch/notes.txt'' \<and>
   calls (fst (onAdd env0 ''/watch/notes.txt'' world_ok)) = [] \<and>
   filter is_fetch (fst (onAdd env0 ''/watch/notes.txt'' world_ok)) = [] \<and>
   filter is_send (fst (onAdd env0 ''/watch/notes.txt'' world_ok)) = [] \<and>
   is_png ''/watch/a.png'' \<and> \<not> file_exists (world_ok\<lparr>file_exists := False\<rparr>) \<and>
   calls (fst (onAdd env0 ''/watch/a.png'' (world_ok\<lparr>file_exists := False\<rparr>))) = [ExistsSync ''/watch/a.png''] \<and>
   filter is_fetch (fst (onAdd env0 ''/watch/a.png'' (world_ok\<lparr>file_exists := False\<rparr>))) = [] \<and>
   filter is_send (fst (onAdd env0 ''/watch/a.png'' (world_ok\<lparr>file_exists := False\<rparr>))) = []"
proof -
  have h1: "\<not> is_png ''/watch/notes.txt''" by code_simp
  have h2: "is_png ''/watch/a.png''" by code_simp
  from handler_order [of env0 "''/watch/notes.txt''" world_ok]
       handler_order [of env0 "''/watch/a.png''" "world_ok\<lparr>file_exists := False\<rparr>"] h1 h2
  show ?thesis by simp
qed


section \<open>The life of the process\<close>

lemma onAdd_effects:
  "e \<in> set (fst (onAdd env p w)) \<Longrightarrow> \<not> is_watch e \<and> \<not> is_login e"
  by (auto simp: handler_defs Let_def split: if_splits sum.splits option.splits channel.splits)

lemma onClientReady_effects:
  "e \<in> set (fst (onClientReady env sess fetched)) \<Longrightarrow> \<not> is_watch e \<and> \<not> is_login e"
  by (auto simp: onClientReady_def verify_settled_def verify_try_def setupFileWatcher_def
        debugLog_def DEBUG_def
      split: if_splits sum.splits option.splits channel.splits)

lemma onClientReady_settles: "snd (onClientReady env sess fetched) = Inr ()"
  by (simp add: onClientReady_def verify_settled_def split: prod.splits sum.splits)

lemma dispatch_ready:
  "status s = Alive \<Longrightarrow>
   dispatch env s (ClientReady sess fetched) =
     s\<lparr>trace := trace s @ fst (onClientReady env sess fetched),
       add_listeners := Suc (add_listeners s), ready_listeners := Suc (ready_listeners s)\<rparr>"
  using onClientReady_settles [of env sess fetched]
  by (cases "onClientReady env sess fetched") (simp add: dispatch_def settle_def)

lemma dispatch_grows:
  "\<exists>t. trace (dispatch env s ev) = trace s @ t \<and> (\<forall>e \<in> set t. \<not> is_watch e \<and> \<not> is_login e)"
proof (cases "status s = Alive")
  case False
  then show ?thesis by (simp add: dispatch_def)
next
  case True
  show ?thesis
  proof (cases ev)
    case (ClientReady sess fetched)
    with True show ?thesis
      using onClientReady_effects [of _ env sess fetched] by (auto simp: dispatch_ready)
  next
    case (WatcherAdd p w)
    with True show ?thesis
      using onAdd_effects [of _ env p w] by (auto simp: dispatch_add)
  qed (use True in \<open>simp_all add: dispatch_def settle_def emit_ok debugLog_def DEBUG_def\<close>)
qed

lemma run_grows:
  "\<exists>t. trace (foldl (dispatch env) s evs) = trace s @ t \<and>
       (\<forall>e \<in> set t. \<not> is_watch e \<and> \<not> is_login e)"
proof (induction evs arbitrary: s)
  case Nil
  show ?case by simp
next
  case (Cons ev evs)
  from dispatch_grows [of env s ev] obtain t1
    where t1: "trace (dispatch env s ev) = trace s @ t1" "\<forall>e \<in> set t1. \<not> is_watch e \<and> \<not> is_login e"
    by blast
  from Cons.IH [of "dispatch env s ev"] obtain t2
    where t2: "trace (foldl (dispatch env) (dispatch env s ev) evs) = trace (dispatch env s ev) @ t2"
              "\<forall>e \<in> set t2. \<not> is_watch e \<and> \<not> is_login e"
    by blast
  from t1 t2 have "trace (foldl (dispatch env) s (ev # evs)) = trace s @ (t1 @ t2) \<and>
                   (\<forall>e \<in> set (t1 @ t2). \<not> is_watch e \<and> \<not> is_login e)"
    by auto
  then show ?case by blast
qed

lemma no_listener_before_ready:
  "add_listeners s = 0 \<Longrightarrow> \<forall>ev \<in> set evs. \<not> is_ready ev \<Longrightarrow>
   add_listeners (foldl (dispatch env) s evs) = 0"
proof (induction evs arbitrary: s)
  case Nil
  then show ?case by simp
next
  case (Cons ev evs)
  have "add_listeners (dispatch env s ev) = 0"
    using Cons.prems
    by (cases ev) (simp_all add: dispatch_def settle_def emit_ok emit_onAdd)
  with Cons show ?case by simp
qed

lemma dispatch_add_unheard:
  "add_listeners s = 0 \<Longrightarrow> dispatch env s (WatcherAdd p w) = s"
  by (simp add: dispatch_def emit_def)

lemma startup_effects_once:
  assumes "configured env"
  shows "filter is_watch (trace (run env evs)) = [ChokidarWatch (env ''WATCH_PATH'')]"
    and "filter is_login (trace (run env evs)) = [Login (env ''DISCORD_TOKEN'')]"
    and "effects_before (Login (env ''DISCORD_TOKEN'')) (trace (run env evs)) =
           DotenvConfig # map (set_line env) requiredEnvVars @
           [NewClient, ChokidarWatch (env ''WATCH_PATH''),
            ClientOn EvDebug, ClientOn EvWarn, ClientOn EvError, ClientOn EvClientReady,
            WatcherOn WError,
            Console CLog (arrows @ '' Attempting to connect to Discord...'') []]"
proof -
  from run_grows [of env "boot env" evs] obtain t
    where t: "trace (run env evs) = fst (main env) @ t" "\<forall>e \<in> set t. \<not> is_watch e \<and> \<not> is_login e"
    by (auto simp: run_def boot_configured [OF assms])
  from t(2) have f: "filter is_watch t = []" "filter is_login t = []"
    by (simp_all add: filter_empty_conv)
  show "filter is_watch (trace (run env evs)) = [ChokidarWatch (env ''WATCH_PATH'')]"
    by (simp add: t(1) f main_configured [OF assms] requiredEnvVars_def set_line_def)
  show "filter is_login (trace (run env evs)) = [Login (env ''DISCORD_TOKEN'')]"
    by (simp add: t(1) f main_configured [OF assms] requiredEnvVars_def set_line_def)
  show "effects_before (Login (env ''DISCORD_TOKEN'')) (trace (run env evs)) =
           DotenvConfig # map (set_line env) requiredEnvVars @
           [NewClient, ChokidarWatch (env ''WATCH_PATH''),
            ClientOn EvDebug, ClientOn EvWarn, ClientOn EvError, ClientOn EvClientReady,
            WatcherOn WError,
            Console CLog (arrows @ '' Attempting to connect to Discord...'') []]"
    by (simp add: t(1) main_configured [OF assms] requiredEnvVars_def set_line_def effects_before_def)
qed


lemma env0_configured: "configured env0"
  by (simp add: configured_def requiredEnvVars_def env0_def falsy_def)

text \<open>
  Claim C3 (the claim as stated fails). The claim puts the creation of the watcher after a
  successful authentication. The module calls \<^verbatim>\<open>chokidar.watch\<close> at its top level (line 38),
  before \<^verbatim>\<open>client.login\<close> (line 146): in a run whose login is rejected the watcher has been created
  all the same, and before the login call.
\<close>

theorem watcher_created_before_login:
  "ChokidarWatch (Some ''/watch'') \<in>
     set (effects_before (Login (Some ''secret''))
            (trace (run env0 [LoginRejected (Error ''TokenInvalid'')])))"
proof -
  have "effects_before (Login (env0 ''DISCORD_TOKEN''))
          (trace (run env0 [LoginRejected (Error ''TokenInvalid'')])) =
        DotenvConfig # map (set_line env0) requiredEnvVars @
           [NewClient, ChokidarWatch (env0 ''WATCH_PATH''),
            ClientOn EvDebug, ClientOn EvWarn, ClientOn EvError, ClientOn EvClientReady,
            WatcherOn WError,
            Console CLog (arrows @ '' Attempting to connect to Discord...'') []]"
    by (rule startup_effects_once(3) [OF env0_configured])
  then show ?thesis
    by (simp add: env0_def)
qed

text \<open>
  Claim C3, amended. With the three variables set, the watcher is created exactly once, at the
  top level of the module, after validation and before the login call is issued; no later
  event creates another. The listener for \<^verbatim>\<open>add\<close> events is registered only by the readiness
  handler: as long as no \<^verbatim>\<open>ClientReady\<close> event has arrived, there is no such listener and a
  File Event changes nothing, so no File Event is handled before the session is ready.
\<close>

theorem watcher_once_events_after_ready:
  assumes "configured env"
  shows "filter is_watch (trace (run env evs)) = [ChokidarWatch (env ''WATCH_PATH'')] \<and>
         ChokidarWatch (env ''WATCH_PATH'') \<in>
           set (effects_before (Login (env ''DISCORD_TOKEN'')) (trace (run env evs))) \<and>
         ((\<forall>ev \<in> set evs. \<not> is_ready ev) \<longrightarrow>
            add_listeners (run env evs) = 0 \<and> run env (evs @ [WatcherAdd p w]) = run env evs)"
proof -
  have "(\<forall>ev \<in> set evs. \<not> is_ready ev) \<longrightarrow>
            add_listeners (run env evs) = 0 \<and> run env (evs @ [WatcherAdd p w]) = run env evs"
  proof
    assume "\<forall>ev \<in> set evs. \<not> is_ready ev"
    then have "add_listeners (run env evs) = 0"
      unfolding run_def
      by (intro no_listener_before_ready) (simp_all add: boot_configured [OF assms])
    then show "add_listeners (run env evs) = 0 \<and> run env (evs @ [WatcherAdd p w]) = run env evs"
      by (simp add: run_def dispatch_add_unheard)
  qed
  then show ?thesis
    by (simp add: startup_effects_once [OF assms])
qed

theorem watcher_once_events_after_ready_witness:
  "configured env0 \<and>
   filter is_watch (trace (run env0 [WatcherReady, ClientDebug ''Preparing to connect'']))
     = [ChokidarWatch (Some ''/watch'')] \<and>
   \<not> is_ready WatcherReady \<and> \<not> is_ready (ClientDebug ''Preparing to connect'') \<and>
   add_listeners (run env0 [WatcherReady, ClientDebug ''Preparing to connect'']) = 0 \<and>
   run env0 ([WatcherReady, ClientDebug ''Preparing to connect''] @ [WatcherAdd ''/watch/shot.png'' world_ok])
     = run env0 [WatcherReady, ClientDebug ''Preparing to connect'']"
proof -
  have h: "\<forall>ev \<in> set [WatcherReady, ClientDebug ''Preparing to connect'']. \<not> is_ready ev"
    by simp
  from watcher_once_events_after_ready
         [OF env0_configured, of "[WatcherReady, ClientDebug ''Preparing to connect'']"
            "''/watch/shot.png''" world_ok] h env0_configured
  show ?thesis by (simp add: env0_def)
qed

text \<open>
  Claim C4 (the claim as stated fails). The claim has the process exit after a failed login.
  The \<^verbatim>\<open>catch\<close> handler of line 146 only writes two lines; the process is alive afterwards
  and goes on handling what the runtime delivers, here an error of the watcher.
\<close>

theorem alive_after_login_failure:
  "status (run env0 [LoginRejected (Error ''TokenInvalid'')]) = Alive \<and>
   trace (run env0 [LoginRejected (Error ''TokenInvalid''), WatcherError (Error ''EACCES'')]) =
     trace (run env0 [LoginRejected (Error ''TokenInvalid'')]) @
     [Console CError (cross_mark @ '' File watcher error:'') [Thrown (Error ''EACCES'')],
      Console CLog ''[DEBUG] Watcher error details:'' [Thrown (Error ''EACCES'')]]"
  by (simp add: run_def dispatch_def settle_def boot_configured [OF env0_configured]
        debugLog_def DEBUG_def)

text \<open>
  Claim C4, amended. A rejected login is written to the console, as an error line and a debug
  line, and changes nothing else: the process stays alive and its listeners are as before.
  The login is not retried: with the three variables set, the trace of any run holds exactly
  one login call, the one of the top level.
\<close>

theorem login_failure_logged_no_retry:
  "(status s = Alive \<longrightarrow>
      dispatch env s (LoginRejected error) =
        s\<lparr>trace := trace s @
             [Console CError (cross_mark @ '' Failed to connect to Discord:'') [Thrown error],
              Console CLog ''[DEBUG] Login error details:'' [Thrown error]]\<rparr>) \<and>
   (configured env \<longrightarrow> filter is_login (trace (run env evs)) = [Login (env ''DISCORD_TOKEN'')])"
  by (simp add: dispatch_def settle_def debugLog_def DEBUG_def startup_effects_once)

theorem login_failure_logged_no_retry_witness:
  "status (boot env0) = Alive \<and>
   dispatch env0 (boot env0) (LoginRejected (Error ''TokenInvalid'')) =
     (boot env0)\<lparr>trace := trace (boot env0) @
        [Console CError (cross_mark @ '' Failed to connect to Discord:'') [Thrown (Error ''TokenInvalid'')],
         Console CLog ''[DEBUG] Login error details:'' [Thrown (Error ''TokenInvalid'')]]\<rparr> \<and>
   configured env0 \<and>
   filter is_login (trace (run env0 [LoginRejected (Error ''TokenInvalid''), LoginResolved]))
     = [Login (Some ''secret'')]"
proof -
  have h: "status (boot env0) = Alive"
    by (simp add: boot_configured [OF env0_configured])
  from login_failure_logged_no_retry
         [of "boot env0" env0 "Error ''TokenInvalid''" "[LoginRejected (Error ''TokenInvalid''), LoginResolved]"]
       h env0_configured
  show ?thesis by (simp add: env0_def)
qed

text \<open>
  Claim C7 (the claim as stated fails). The claim has every event with the PNG extension fetch
  the channel. The existence check comes first (line 111): when the file is gone the
  handler returns before line 116 and fetches nothing.
\<close>

theorem no_fetch_for_vanished_file:
  "is_png ''/watch/a.png'' \<and>
   filter is_fetch (fst (onAdd env0 ''/watch/a.png'' (world_ok\<lparr>file_exists := False\<rparr>))) = []"
proof -
  have h: "is_png ''/watch/a.png''" by code_simp
  then show ?thesis by (simp add: png_vanished_trace)
qed

text \<open>
  Claim C7, amended. The readiness handler registers the \<^verbatim>\<open>add\<close> listener whatever the
  fetch of the start-up verification gives (rejection, no channel, a channel of another kind,
  missing permissions or success), and the process stays alive. Every event with the PNG
  extension whose file still exists fetches the channel anew, once, by the configured id: a
  rejected fetch leaves the \<^verbatim>\<open>try\<close> block with the rejection, and \<^verbatim>\<open>null\<close> or a channel that
  is no text channel leaves it with the error \<^verbatim>\<open>Invalid channel or channel not found\<close>. What the
  handler does depends on the answers of its own calls only, not on what the verification
  found.
\<close>

theorem verification_advisory_fetch_per_event:
  "(status s = Alive \<longrightarrow>
      status (dispatch env s (ClientReady sess fetched)) = Alive \<and>
      add_listeners (dispatch env s (ClientReady sess fetched)) = Suc (add_listeners s) \<and>
      WatcherOn WAdd \<in> set (fst (onClientReady env sess fetched)) \<and>
      trace (dispatch env (dispatch env s (ClientReady sess fetched)) (WatcherAdd p w)) =
        trace (dispatch env s (ClientReady sess fetched)) @
        concat (replicate (Suc (add_listeners s)) (fst (onAdd env p w)))) \<and>
   (is_png p \<and> file_exists w \<longrightarrow>
      filter is_fetch (fst (onAdd env p w)) = [ChannelsFetch (env ''CHANNEL_ID'')] \<and>
      (\<forall>error. fetch_result w = Inl error \<longrightarrow> snd (onAdd_try env p w) = Inl error) \<and>
      (fetch_result w = Inr None \<or> fetch_result w = Inr (Some OtherChannel) \<longrightarrow>
         snd (onAdd_try env p w) = Inl (Error ''Invalid channel or channel not found'')))"
proof -
  have a: "WatcherOn WAdd \<in> set (fst (onClientReady env sess fetched))"
    by (simp add: onClientReady_def setupFileWatcher_def case_prod_unfold)
  have f: "filter is_fetch (fst (onAdd env p w)) = filter is_fetch (calls (fst (onAdd env p w)))"
    by (rule filter_calls [symmetric]) (auto elim: is_fetch.elims)
  have b: "is_png p \<and> file_exists w \<longrightarrow>
      filter is_fetch (fst (onAdd env p w)) = [ChannelsFetch (env ''CHANNEL_ID'')]"
    unfolding f by (simp add: calls_onAdd split: sum.splits option.splits channel.splits)
  have c: "is_png p \<and> file_exists w \<longrightarrow>
      (\<forall>error. fetch_result w = Inl error \<longrightarrow> snd (onAdd_try env p w) = Inl error) \<and>
      (fetch_result w = Inr None \<or> fetch_result w = Inr (Some OtherChannel) \<longrightarrow>
         snd (onAdd_try env p w) = Inl (Error ''Invalid channel or channel not found''))"
    by (auto simp: onAdd_try_def upload_step_def)
  from a b c show ?thesis
    by (simp add: dispatch_ready dispatch_add)
qed

theorem verification_advisory_fetch_per_event_witness:
  "status (boot env0) = Alive \<and>
   add_listeners (dispatch env0 (boot env0) (ClientReady session0 (Inr None))) = Suc (add_listeners (boot env0)) \<and>
   WatcherOn WAdd \<in> set (fst (onClientReady env0 session0 (Inr None))) \<and>
   is_png ''/watch/a.png'' \<and> file_exists (world_ok\<lparr>fetch_result := Inr None\<rparr>) \<and>
   filter is_fetch (fst (onAdd env0 ''/watch/a.png'' (world_ok\<lparr>fetch_result := Inr None\<rparr>)))
     = [ChannelsFetch (Some ''42'')] \<and>
   fetch_result (world_ok\<lparr>fetch_result := Inr None\<rparr>) = Inr None \<and>
   snd (onAdd_try env0 ''/watch/a.png'' (world_ok\<lparr>fetch_result := Inr None\<rparr>))
     = Inl (Error ''Invalid channel or channel not found'')"
proof -
  have h1: "status (boot env0) = Alive"
    by (simp add: boot_configured [OF env0_configured])
  have h2: "is_png ''/watch/a.png''" by code_simp
  have h3: "file_exists (world_ok\<lparr>fetch_result := Inr None\<rparr>)"
    by (simp add: world_ok_def)
  from verification_advisory_fetch_per_event
         [of "boot env0" env0 session0 "Inr None" "''/watch/a.png''" "world_ok\<lparr>fetch_result := Inr None\<rparr>"]
       h1 h2 h3
  show ?thesis by (simp add: env0_def)
qed


section \<open>The credential and the console\<close>







end
